theory Spec2Isabelle
  imports Main "HOL-Library.Word"
begin

section \<open>Machine types\<close>

text \<open>
  The runtime is built for 64-bit targets: \<open>uint64_t\<close>, \<open>size_t\<close>, \<open>pointer\<close> and
  \<open>objptr\<close> are 64-bit words whose arithmetic wraps around, \<open>uint32_t\<close> is a 32-bit
  word and \<open>uint16_t\<close> a 16-bit word.
\<close>

type_synonym uint64_t = "64 word"
type_synonym uint32_t = "32 word"
type_synonym uint16_t = "16 word"
type_synonym size_t = "64 word"
type_synonym pointer = "64 word"
type_synonym objptr = "64 word"

section \<open>The Chase-Lev deque (chase-lev-deque.c)\<close>

text \<open>
  The three heap cells the deque functions receive: the \<open>uint64_t\<close> behind \<open>top_op\<close>,
  the \<open>uint64_t\<close> behind \<open>bot_op\<close>, and the sequence behind \<open>data_op\<close>. The fields
  are named \<open>top_ix\<close>, \<open>bot_ix\<close> and \<open>data_seq\<close> because \<open>top\<close> and \<open>bot\<close> are
  lattice constants of HOL.
\<close>

record deque =
  top_ix :: uint64_t
  bot_ix :: uint64_t
  data_seq :: "objptr list"

text \<open>\<open>#define CAP 64\<close>\<close>

definition CAP :: nat where
  "CAP = 64"

text \<open>
  \<open>getSequenceLength\<close> reads the length field of the sequence object; the list that
  models the sequence carries it as its length.
\<close>

definition getSequenceLength :: "objptr list \<Rightarrow> uint64_t" where
  "getSequenceLength xs = of_nat (length xs)"

text \<open>
  The deque functions cannot fail in C, but \<open>data + (i % CAP)\<close> addresses a slot
  outside the sequence when the sequence is shorter than \<open>CAP\<close>; C leaves that access
  undefined, and the model returns \<open>OutOfBounds\<close> for it. \<open>ChaseLev_setDepth\<close> ends the
  process with \<open>DIE\<close> on a non-empty deque.
\<close>

datatype deque_fault = OutOfBounds | Die_nonempty_deque

definition seq_load :: "objptr list \<Rightarrow> nat \<Rightarrow> objptr option" where
  "seq_load xs i = (if i < length xs then Some (xs ! i) else None)"

definition seq_store :: "objptr list \<Rightarrow> nat \<Rightarrow> objptr \<Rightarrow> objptr list option" where
  "seq_store xs i v = (if i < length xs then Some (xs[i := v]) else None)"

text \<open>
  \<open>ChaseLev_pushBot\<close>, run by the owner with no other thread taking a step in between:
  the atomic loads and stores are then plain reads and writes in program order.
\<close>

definition ChaseLev_pushBot :: "deque \<Rightarrow> objptr \<Rightarrow> deque_fault + (bool \<times> deque)" where
  "ChaseLev_pushBot d elem_to_push =
     (let local_bot = bot_ix d;
          local_top = top_ix d;
          size = local_bot - local_top
      in if size \<ge> getSequenceLength (data_seq d) then Inr (False, d)
         else (case seq_store (data_seq d) (unat local_bot mod CAP) elem_to_push of
                 None \<Rightarrow> Inl OutOfBounds
               | Some data' \<Rightarrow> Inr (True, d\<lparr>data_seq := data', bot_ix := local_bot + 1\<rparr>)))"

text \<open>
  \<open>__atomic_compare_exchange_n(top, &local_top, local_top + 1, ...)\<close>: the cell is
  replaced when it still holds the expected value.
\<close>

definition compare_exchange_top :: "deque \<Rightarrow> uint64_t \<Rightarrow> uint64_t \<Rightarrow> bool \<times> deque" where
  "compare_exchange_top d expected desired =
     (if top_ix d = expected then (True, d\<lparr>top_ix := desired\<rparr>) else (False, d))"

text \<open>\<open>ChaseLev_tryPopBot\<close>, again with no interleaved step of a thief.\<close>

definition ChaseLev_tryPopBot :: "deque \<Rightarrow> objptr \<Rightarrow> deque_fault + (objptr \<times> deque)" where
  "ChaseLev_tryPopBot d fail_value =
     (let local_bot = bot_ix d - 1;
          d1 = d\<lparr>bot_ix := local_bot\<rparr>;
          local_top = top_ix d1
      in if local_top \<le> local_bot then
           (case seq_load (data_seq d1) (unat local_bot mod CAP) of
              None \<Rightarrow> Inl OutOfBounds
            | Some elem \<Rightarrow>
                if local_top = local_bot then
                  (let (ok, d2) = compare_exchange_top d1 local_top (local_top + 1);
                       elem' = (if \<not> ok then fail_value else elem)
                   in Inr (elem', d2\<lparr>bot_ix := local_bot + 1\<rparr>))
                else Inr (elem, d1))
         else Inr (fail_value, d1\<lparr>bot_ix := local_bot + 1\<rparr>))"

text \<open>\<open>ChaseLev_tryPopTop\<close>, run by a thief with no interleaved step of another thread.\<close>

definition ChaseLev_tryPopTop :: "deque \<Rightarrow> objptr \<Rightarrow> deque_fault + (objptr \<times> deque)" where
  "ChaseLev_tryPopTop d fail_value =
     (let local_top = top_ix d;
          local_bot = bot_ix d
      in if local_top < local_bot then
           (case seq_load (data_seq d) (unat local_top mod CAP) of
              None \<Rightarrow> Inl OutOfBounds
            | Some elem \<Rightarrow>
                (let (ok, d1) = compare_exchange_top d local_top (local_top + 1)
                 in if \<not> ok then Inr (fail_value, d1) else Inr (elem, d1)))
         else Inr (fail_value, d))"

text \<open>
  \<open>ChaseLev_setDepth\<close> issues sequentially consistent stores, which other threads see
  in program order. The model first lists the stores the call issues, then runs them
  one at a time, so that the memory state between two stores is a value of the model.
\<close>

datatype deque_store = Store_top uint64_t | Store_bot uint64_t

fun do_store :: "deque_store \<Rightarrow> deque \<Rightarrow> deque" where
  "do_store (Store_top v) d = d\<lparr>top_ix := v\<rparr>"
| "do_store (Store_bot v) d = d\<lparr>bot_ix := v\<rparr>"

definition ChaseLev_setDepth_stores :: "deque \<Rightarrow> uint64_t \<Rightarrow> deque_fault + deque_store list" where
  "ChaseLev_setDepth_stores d desired_depth =
     (let local_top = top_ix d;
          local_bot = bot_ix d
      in if local_top \<noteq> local_bot then Inl Die_nonempty_deque
         else if desired_depth = local_bot then Inr []
         else if desired_depth < local_bot then
           Inr [Store_bot desired_depth, Store_top desired_depth]
         else Inr [Store_top desired_depth, Store_bot desired_depth])"

text \<open>
  The memory states a run of stores goes through: the state before the first store,
  then the state after each store.
\<close>

fun states_of :: "deque_store list \<Rightarrow> deque \<Rightarrow> deque list" where
  "states_of [] d = [d]"
| "states_of (st # sts) d = d # states_of sts (do_store st d)"

definition ChaseLev_setDepth :: "deque \<Rightarrow> uint64_t \<Rightarrow> deque_fault + deque" where
  "ChaseLev_setDepth d desired_depth =
     (case ChaseLev_setDepth_stores d desired_depth of
        Inl e \<Rightarrow> Inl e
      | Inr sts \<Rightarrow> Inr (last (states_of sts d)))"

section \<open>Hierarchical heap collection (hierarchical-heap-collection.c)\<close>

subsection \<open>Objects, chunks and chunk lists\<close>

datatype GC_objectTypeTag = NORMAL_TAG | SEQUENCE_TAG | STACK_TAG | WEAK_TAG

text \<open>The two fields of \<open>struct GC_stack\<close> the collector reads and writes.\<close>

record GC_stack =
  reserved :: size_t
  used :: size_t

text \<open>
  What the collector reads at an object pointer \<open>p\<close>: whether the header is the
  forwarding sentinel and, if so, the forwarding pointer (\<open>hasFwdPtr\<close>, \<open>getFwdPtr\<close>);
  the header as \<open>splitHeader\<close> splits it; the sequence length; the stack struct.
\<close>

record gc_object =
  fwdPtr :: "objptr option"
  tag :: GC_objectTypeTag
  bytesNonObjptrs :: uint16_t
  numObjptrs :: uint16_t
  sequenceLength :: uint64_t
  stack :: GC_stack

text \<open>
  A chunk list is referred to by a handle (the \<open>HM_chunkList\<close> pointer of the code);
  \<open>None\<close> is \<open>NULL\<close>. A chunk is referred to by its address.
\<close>

type_synonym HM_chunkList_ref = nat

record HM_chunk =
  frontier :: pointer
  limit :: pointer
  mightContainMultipleObjects :: bool
  levelHead :: HM_chunkList_ref

record HM_chunkList =
  chunkSeq :: "pointer list"
  level :: uint32_t
  isInToSpace :: bool
  containingHH :: pointer

text \<open>
  The part of the heap the forwarding engine works on. \<open>chunkOf\<close> is \<open>HM_getChunkOf\<close>:
  the chunk whose memory holds an address. \<open>chunkPool\<close> is the supply of the chunk
  allocator and \<open>freshList\<close> the next unused chunk-list handle. \<open>stackCurrent\<close> is
  \<open>getStackCurrent(s)\<close>.
\<close>

record hh_heap =
  objects :: "pointer \<Rightarrow> gc_object"
  chunkOf :: "pointer \<Rightarrow> pointer"
  chunks :: "pointer \<Rightarrow> HM_chunk"
  chunkLists :: "HM_chunkList_ref \<Rightarrow> HM_chunkList"
  freshList :: HM_chunkList_ref
  chunkPool :: "(pointer \<times> HM_chunk) list"
  stackCurrent :: pointer

text \<open>
  The constants, macros and object-model functions that the collector uses and whose
  definitions are in other files of the runtime. They are parameters: every theorem
  below holds for all their values.
\<close>

record gc_params =
  GC_NORMAL_METADATA_SIZE :: size_t
  GC_SEQUENCE_METADATA_SIZE :: size_t
  GC_STACK_METADATA_SIZE :: size_t
  OBJPTR_SIZE :: size_t
  sizeof_GC_stack :: size_t
  GC_HEAP_LIMIT_SLOP :: size_t
  HM_BLOCK_SIZE :: size_t
  HM_HH_INVALID_LEVEL :: uint32_t
  COPY_OBJECT_HH_VALUE :: pointer
  sizeofSequenceNoMetaData :: "uint64_t \<Rightarrow> uint16_t \<Rightarrow> uint16_t \<Rightarrow> size_t"
  sizeofStackShrinkReserved :: "GC_stack \<Rightarrow> bool \<Rightarrow> size_t"
  isObjptr :: "objptr \<Rightarrow> bool"
  isObjptrInRootHeap :: "objptr \<Rightarrow> bool"
  objptrToPointer :: "objptr \<Rightarrow> pointer"
  pointerToObjptr :: "pointer \<Rightarrow> objptr"

record ForwardHHObjptrArgs =
  hh :: pointer
  minLevel :: uint32_t
  maxLevel :: uint32_t
  toLevel :: uint32_t
  toSpace :: "uint32_t \<Rightarrow> HM_chunkList_ref option"
  containingObject :: objptr
  bytesCopied :: size_t
  objectsCopied :: uint64_t
  stacksCopied :: uint64_t
  bytesMoved :: size_t
  objectsMoved :: uint64_t

text \<open>
  The fatal exits of the collector: the three \<open>DIE\<close> messages, and the dereference
  of the \<open>NULL\<close> that \<open>HM_getChunkListLastChunk\<close> returns for a list with no chunk.
\<close>

datatype gc_abort = Entanglement | Weak_unsupported | Out_of_space | Null_chunk

subsection \<open>The chunk interface\<close>

text \<open>
  Modelled from the spec: \<open>get_chunk_list_level\<close> of the level head of \<open>chunk_of(ptr)\<close>,
  which is what \<open>HM_getObjptrLevel\<close> and the \<open>level\<close> field of \<open>HM_getObjptrInfo\<close>
  deliver (hierarchical-heap.c and chunk.c are not among the files).
\<close>

definition HM_getObjptrLevel :: "gc_params \<Rightarrow> hh_heap \<Rightarrow> objptr \<Rightarrow> uint32_t" where
  "HM_getObjptrLevel P h op =
     level (chunkLists h (levelHead (chunks h (chunkOf h (objptrToPointer P op)))))"

text \<open>
  Modelled from the spec: \<open>HM_isObjptrInToSpace\<close>, the \<open>is_in_to_space\<close> flag of the
  chunk list that holds the object's chunk.
\<close>

definition HM_isObjptrInToSpace :: "gc_params \<Rightarrow> hh_heap \<Rightarrow> objptr \<Rightarrow> bool" where
  "HM_isObjptrInToSpace P h op =
     isInToSpace (chunkLists h (levelHead (chunks h (chunkOf h (objptrToPointer P op)))))"

text \<open>
  Modelled from the spec: \<open>new_chunk_list(hh_sentinel, level) -> ChunkList\<close>, an empty
  list under an unused handle, not in to-space.
\<close>

definition HM_newChunkList :: "hh_heap \<Rightarrow> pointer \<Rightarrow> uint32_t \<Rightarrow> HM_chunkList_ref \<times> hh_heap" where
  "HM_newChunkList h hhv lvl =
     (freshList h,
      h\<lparr>chunkLists := (chunkLists h)
           (freshList h := \<lparr>chunkSeq = [], level = lvl, isInToSpace = False, containingHH = hhv\<rparr>),
        freshList := Suc (freshList h)\<rparr>)"

text \<open>
  Modelled from the spec: \<open>allocate_chunk(list, min_bytes) -> Chunk?\<close>. The allocator
  hands out the first chunk of its supply with at least \<open>min_bytes\<close> between frontier
  and limit and appends it to the list; with no such chunk it returns \<open>NULL\<close>.
\<close>

fun take_chunk :: "size_t \<Rightarrow> (pointer \<times> HM_chunk) list
    \<Rightarrow> ((pointer \<times> HM_chunk) \<times> (pointer \<times> HM_chunk) list) option" where
  "take_chunk n [] = None"
| "take_chunk n (c # cs) =
     (if n \<le> limit (snd c) - frontier (snd c) then Some (c, cs)
      else (case take_chunk n cs of None \<Rightarrow> None | Some (x, r) \<Rightarrow> Some (x, c # r)))"

definition HM_allocateChunk :: "hh_heap \<Rightarrow> HM_chunkList_ref \<Rightarrow> size_t \<Rightarrow> (pointer \<times> hh_heap) option" where
  "HM_allocateChunk h l bytes =
     (case take_chunk bytes (chunkPool h) of
        None \<Rightarrow> None
      | Some ((c, ch), rest) \<Rightarrow>
          Some (c, h\<lparr>chunkPool := rest,
                     chunks := (chunks h)(c := ch\<lparr>levelHead := l\<rparr>),
                     chunkLists := (chunkLists h)
                       (l := (chunkLists h l)\<lparr>chunkSeq := chunkSeq (chunkLists h l) @ [c]\<rparr>)\<rparr>))"

text \<open>Modelled from the spec: \<open>unlink_chunk\<close>, the chunk leaves the list it is in.\<close>

definition HM_unlinkChunk :: "hh_heap \<Rightarrow> pointer \<Rightarrow> hh_heap" where
  "HM_unlinkChunk h c =
     (let l = levelHead (chunks h c)
      in h\<lparr>chunkLists := (chunkLists h)
             (l := (chunkLists h l)\<lparr>chunkSeq := removeAll c (chunkSeq (chunkLists h l))\<rparr>)\<rparr>)"

text \<open>Modelled from the spec: \<open>append_chunk\<close>, the chunk becomes the last of the list.\<close>

definition HM_appendChunk :: "hh_heap \<Rightarrow> HM_chunkList_ref \<Rightarrow> pointer \<Rightarrow> hh_heap" where
  "HM_appendChunk h l c =
     h\<lparr>chunks := (chunks h)(c := (chunks h c)\<lparr>levelHead := l\<rparr>),
       chunkLists := (chunkLists h)
         (l := (chunkLists h l)\<lparr>chunkSeq := chunkSeq (chunkLists h l) @ [c]\<rparr>)\<rparr>"

text \<open>Modelled from the spec: \<open>HM_updateChunkValues\<close> stores the frontier of a chunk.\<close>

definition HM_updateChunkValues :: "hh_heap \<Rightarrow> pointer \<Rightarrow> pointer \<Rightarrow> hh_heap" where
  "HM_updateChunkValues h c fr = h\<lparr>chunks := (chunks h)(c := (chunks h c)\<lparr>frontier := fr\<rparr>)\<rparr>"

text \<open>
  \<open>GC_memcpy(src, dst, n)\<close>: every address of \<open>[dst, dst + n)\<close> receives what the
  address at the same offset of \<open>[src, src + n)\<close> holds.
\<close>

definition GC_memcpy :: "hh_heap \<Rightarrow> pointer \<Rightarrow> pointer \<Rightarrow> size_t \<Rightarrow> hh_heap" where
  "GC_memcpy h src dst n =
     h\<lparr>objects := (\<lambda>x. if x - dst < n then objects h (src + (x - dst)) else objects h x)\<rparr>"

subsection \<open>\<open>computeObjectCopyParameters\<close> and \<open>copyObject\<close>\<close>

text \<open>
  The result holds the tag, \<open>*objectSize\<close>, \<open>*copySize\<close>, \<open>*metaDataSize\<close> and the
  heap, in which the stack at \<open>p\<close> may have a smaller \<open>reserved\<close>. A \<open>WEAK_TAG\<close>
  object ends the process (\<open>die\<close>).
\<close>

definition computeObjectCopyParameters ::
  "gc_params \<Rightarrow> hh_heap \<Rightarrow> pointer
     \<Rightarrow> gc_abort + (GC_objectTypeTag \<times> size_t \<times> size_t \<times> size_t \<times> hh_heap)" where
  "computeObjectCopyParameters P h p =
     (let ob = objects h p;
          t = tag ob
      in if t = NORMAL_TAG \<or> t = WEAK_TAG then
           (if t = WEAK_TAG then Inl Weak_unsupported
            else (let metaDataSize = GC_NORMAL_METADATA_SIZE P;
                      objectSize = ucast (bytesNonObjptrs ob) + ucast (numObjptrs ob) * OBJPTR_SIZE P;
                      copySize = objectSize
                  in Inr (t, objectSize + metaDataSize, copySize + metaDataSize, metaDataSize, h)))
         else if t = SEQUENCE_TAG then
           (let metaDataSize = GC_SEQUENCE_METADATA_SIZE P;
                objectSize = sizeofSequenceNoMetaData P (sequenceLength ob)
                               (bytesNonObjptrs ob) (numObjptrs ob);
                copySize = objectSize
            in Inr (t, objectSize + metaDataSize, copySize + metaDataSize, metaDataSize, h))
         else
           (let metaDataSize = GC_STACK_METADATA_SIZE P;
                current = (stackCurrent h = p);
                reservedNew = sizeofStackShrinkReserved P (stack ob) current;
                h' = (if reservedNew < reserved (stack ob)
                      then h\<lparr>objects := (objects h)
                              (p := ob\<lparr>stack := (stack ob)\<lparr>reserved := reservedNew\<rparr>\<rparr>)\<rparr>
                      else h);
                objectSize = sizeof_GC_stack P + reserved (stack (objects h' p));
                copySize = sizeof_GC_stack P + used (stack (objects h' p))
            in Inr (t, objectSize + metaDataSize, copySize + metaDataSize, metaDataSize, h')))"


definition copyObject ::
  "gc_params \<Rightarrow> hh_heap \<Rightarrow> pointer \<Rightarrow> size_t \<Rightarrow> size_t \<Rightarrow> HM_chunkList_ref
     \<Rightarrow> gc_abort + (pointer \<times> hh_heap)" where
  "copyObject P h p objectSize copySize tgtChunkList =
     (case chunkSeq (chunkLists h tgtChunkList) of
        [] \<Rightarrow> Inl Null_chunk
      | _ # _ \<Rightarrow>
          (let chunk = last (chunkSeq (chunkLists h tgtChunkList));
               fr = frontier (chunks h chunk);
               lim = limit (chunks h chunk);
               mustExtend = (lim - fr < objectSize \<or> chunk + HM_BLOCK_SIZE P \<le> fr)
           in case (if mustExtend
                    then (case HM_allocateChunk h tgtChunkList objectSize of
                            None \<Rightarrow> None
                          | Some (c, h1) \<Rightarrow> Some (c, frontier (chunks h1 c), h1))
                    else Some (chunk, fr, h)) of
                None \<Rightarrow> Inl Out_of_space
              | Some (chunk1, fr1, h1) \<Rightarrow>
                  (let h2 = GC_memcpy h1 p fr1 copySize;
                       newFrontier = fr1 + objectSize;
                       h3 = HM_updateChunkValues h2 chunk1 newFrontier
                   in if chunk1 + HM_BLOCK_SIZE P \<le> newFrontier then
                        (case HM_allocateChunk h3 tgtChunkList (GC_HEAP_LIMIT_SLOP P) of
                           None \<Rightarrow> Inl Out_of_space
                         | Some (c, h4) \<Rightarrow> Inr (fr1, h4))
                      else Inr (fr1, h3))))"

subsection \<open>\<open>forwardHHObjptr\<close>\<close>

text \<open>
  The loop \<open>while (hasFwdPtr(p)) { op = getFwdPtr(p); p = objptrToPointer(op, NULL); }\<close>.
  It does not end on a cycle of forwarding pointers: not returning is \<open>None\<close>.
\<close>

partial_function (option) followFwdPtrs ::
  "(objptr \<Rightarrow> pointer) \<Rightarrow> (pointer \<Rightarrow> gc_object) \<Rightarrow> objptr \<Rightarrow> objptr option" where
  "followFwdPtrs o2p objs op =
     (case fwdPtr (objs (o2p op)) of
        None \<Rightarrow> Some op
      | Some op' \<Rightarrow> followFwdPtrs o2p objs op')"

text \<open>
  Lines 678 to 691: the target list is \<open>args->toSpace[opInfo.level]\<close>, created with a
  first chunk of \<open>objectBytes\<close> when the entry is \<open>NULL\<close>.
\<close>

definition selectTgtChunkList ::
  "gc_params \<Rightarrow> hh_heap \<Rightarrow> ForwardHHObjptrArgs \<Rightarrow> uint32_t \<Rightarrow> size_t
     \<Rightarrow> gc_abort + (HM_chunkList_ref \<times> ForwardHHObjptrArgs \<times> hh_heap)" where
  "selectTgtChunkList P h args lvl objectBytes =
     (case toSpace args lvl of
        Some tgtChunkList \<Rightarrow> Inr (tgtChunkList, args, h)
      | None \<Rightarrow>
          (let (tgtChunkList, h1) = HM_newChunkList h (COPY_OBJECT_HH_VALUE P) lvl
           in case HM_allocateChunk h1 tgtChunkList objectBytes of
                None \<Rightarrow> Inl Out_of_space
              | Some (c, h2) \<Rightarrow>
                  Inr (tgtChunkList,
                       args\<lparr>toSpace := (toSpace args)(lvl \<mapsto> tgtChunkList)\<rparr>,
                       h2\<lparr>chunkLists := (chunkLists h2)
                            (tgtChunkList := (chunkLists h2 tgtChunkList)\<lparr>isInToSpace := True\<rparr>)\<rparr>)))"

text \<open>
  Lines 650 to 757, the branch that forwards the object at \<open>op\<close> (\<open>p\<close> is its
  pointer). \<open>opp_val\<close> is the content of the slot \<open>*opp\<close> on entry, \<open>lvl\<close> is
  \<open>opInfo.level\<close>. The result holds the content of \<open>*opp\<close> on exit.
\<close>

definition forwardHHObjptr_forward ::
  "gc_params \<Rightarrow> hh_heap \<Rightarrow> ForwardHHObjptrArgs \<Rightarrow> objptr \<Rightarrow> pointer \<Rightarrow> uint32_t
     \<Rightarrow> gc_abort + (objptr \<times> ForwardHHObjptrArgs \<times> hh_heap)" where
  "forwardHHObjptr_forward P h args opp_val p lvl =
     (case computeObjectCopyParameters P h p of
        Inl e \<Rightarrow> Inl e
      | Inr (t, objectBytes, copyBytes, metaDataBytes, h1) \<Rightarrow>
          (case (case t of
                   STACK_TAG \<Rightarrow> Inr (args\<lparr>stacksCopied := stacksCopied args + 1\<rparr>)
                 | WEAK_TAG \<Rightarrow> Inl Weak_unsupported
                 | _ \<Rightarrow> Inr args) of
             Inl e \<Rightarrow> Inl e
           | Inr args1 \<Rightarrow>
               (case selectTgtChunkList P h1 args1 lvl objectBytes of
                  Inl e \<Rightarrow> Inl e
                | Inr (tgtChunkList, args2, h2) \<Rightarrow>
                    if \<not> mightContainMultipleObjects (chunks h2 (chunkOf h2 p)) then
                      (let chunk = chunkOf h2 p;
                           h3 = HM_unlinkChunk h2 chunk;
                           h4 = HM_appendChunk h3 tgtChunkList chunk
                       in case HM_allocateChunk h4 tgtChunkList (GC_HEAP_LIMIT_SLOP P) of
                            None \<Rightarrow> Inl Out_of_space
                          | Some (c, h5) \<Rightarrow>
                              Inr (opp_val,
                                   args2\<lparr>bytesMoved := bytesMoved args2 + copyBytes,
                                         objectsMoved := objectsMoved args2 + 1\<rparr>,
                                   h5))
                    else
                      (case copyObject P h2 (p - metaDataBytes) objectBytes copyBytes tgtChunkList of
                         Inl e \<Rightarrow> Inl e
                       | Inr (copyPointer, h3) \<Rightarrow>
                           (let args3 = args2\<lparr>bytesCopied := bytesCopied args2 + copyBytes,
                                               objectsCopied := objectsCopied args2 + 1\<rparr>;
                                fwd = pointerToObjptr P (copyPointer + metaDataBytes);
                                h4 = h3\<lparr>objects := (objects h3)
                                        (p := (objects h3 p)\<lparr>fwdPtr := Some fwd\<rparr>)\<rparr>
                            in Inr (fwd, args3, h4))))))"

text \<open>
  \<open>forwardHHObjptr\<close>. The outer \<open>option\<close> is \<open>None\<close> when the loop over the forwarding
  pointers does not end.
\<close>

definition forwardHHObjptr ::
  "gc_params \<Rightarrow> hh_heap \<Rightarrow> ForwardHHObjptrArgs \<Rightarrow> objptr
     \<Rightarrow> (gc_abort + (objptr \<times> ForwardHHObjptrArgs \<times> hh_heap)) option" where
  "forwardHHObjptr P h args opp_val =
     (let op = opp_val
      in if \<not> isObjptr P op \<or> isObjptrInRootHeap P op then Some (Inr (opp_val, args, h))
         else
           (let opInfo_level = HM_getObjptrLevel P h op
            in if maxLevel args < opInfo_level then Some (Inl Entanglement)
               else if maxLevel args < opInfo_level \<or> opInfo_level < minLevel args
               then Some (Inr (opp_val, args, h))
               else
                 (case followFwdPtrs (objptrToPointer P) (objects h) op of
                    None \<Rightarrow> None
                  | Some op1 \<Rightarrow>
                      if HM_getObjptrLevel P h op1 < minLevel args then Some (Inr (op1, args, h))
                      else if HM_isObjptrInToSpace P h op1 then Some (Inr (op1, args, h))
                      else Some (forwardHHObjptr_forward P h args opp_val
                                   (objptrToPointer P op1) opInfo_level))))"

section \<open>Weak fixup of the Cheney collector (cheney-copy.c)\<close>

text \<open>
  The memory \<open>updateWeaksForCheneyCopy\<close> reads and writes, one map per field:
  \<open>headers p\<close> is the header of the object at pointer \<open>p\<close> (\<open>getHeader\<close>,
  \<open>getHeaderp\<close>), \<open>bodyWord p\<close> is \<open>*(objptr*)p\<close>, the first word of the object, where
  a forwarded object holds its forwarding pointer, and \<open>weak_objptr w\<close> and
  \<open>weak_link w\<close> are the fields \<open>w->objptr\<close> and \<open>w->link\<close> of the \<open>struct GC_weak\<close>
  at \<open>w\<close>. \<open>NULL\<close> is 0. All headers are in one map, so the header written for one weak
  object is the header read for a referent at the same address; a write to a field
  of one kind leaves the fields of the other kinds as they are.
\<close>

type_synonym GC_header = "64 word"

record cheney_state =
  headers :: "pointer \<Rightarrow> GC_header"
  bodyWord :: "pointer \<Rightarrow> objptr"
  weak_objptr :: "pointer \<Rightarrow> objptr"
  weak_link :: "pointer \<Rightarrow> pointer"
  weaks :: pointer

text \<open>
  The constants of the object model that the function uses, as parameters:
  \<open>heapObjptrToPointer\<close> is \<open>objptrToPointer (_, s->heap->start)\<close> and \<open>offsetofWeak\<close> is
  \<open>offsetofWeak (s)\<close>.
\<close>

record cheney_params =
  GC_FORWARDED :: GC_header
  GC_WEAK_GONE_HEADER :: GC_header
  BOGUS_OBJPTR :: objptr
  offsetofWeak :: size_t
  heapObjptrToPointer :: "objptr \<Rightarrow> pointer"

text \<open>
  One iteration of \<open>for (w = s->weaks; w != NULL; w = w->link)\<close>. The \<open>assert\<close> and the
  \<open>DEBUG_WEAK\<close> output are not part of a production build.
\<close>

definition updateWeak :: "cheney_params \<Rightarrow> pointer \<Rightarrow> cheney_state \<Rightarrow> cheney_state" where
  "updateWeak C w s =
     (let p = heapObjptrToPointer C (weak_objptr s w)
      in if GC_FORWARDED C = headers s p
         then s\<lparr>weak_objptr := (weak_objptr s)(w := bodyWord s p)\<rparr>
         else s\<lparr>headers := (headers s)(w - offsetofWeak C := GC_WEAK_GONE_HEADER C),
                weak_objptr := (weak_objptr s)(w := BOGUS_OBJPTR C)\<rparr>)"

text \<open>The loop; it does not end when the links form a cycle, and then the value is \<open>None\<close>.\<close>

partial_function (option) updateWeaks_loop ::
  "cheney_params \<Rightarrow> pointer \<Rightarrow> cheney_state \<Rightarrow> cheney_state option" where
  "updateWeaks_loop C w s =
     (if w = 0 then Some s
      else updateWeaks_loop C (weak_link (updateWeak C w s) w) (updateWeak C w s))"

definition updateWeaksForCheneyCopy :: "cheney_params \<Rightarrow> cheney_state \<Rightarrow> cheney_state option" where
  "updateWeaksForCheneyCopy C s =
     (case updateWeaks_loop C (weaks s) s of
        None \<Rightarrow> None
      | Some s' \<Rightarrow> Some (s'\<lparr>weaks := 0\<rparr>))"

text \<open>
  The weak chain as a list: \<open>weak_chain lnk w ws\<close> holds when following \<open>lnk\<close> from \<open>w\<close>
  visits exactly the weaks \<open>ws\<close>, in this order, and then reaches \<open>NULL\<close>.
\<close>

fun weak_chain :: "(pointer \<Rightarrow> pointer) \<Rightarrow> pointer \<Rightarrow> pointer list \<Rightarrow> bool" where
  "weak_chain lnk w [] = (w = 0)"
| "weak_chain lnk w (x # xs) = (w \<noteq> 0 \<and> w = x \<and> weak_chain lnk (lnk x) xs)"

section \<open>The mutator's entry to the collector (local-heap.c)\<close>

text \<open>
  The fields of \<open>GC_state\<close> and of the current hierarchical heap that
  \<open>HM_ensureHierarchicalHeapAssurances\<close> reads and writes itself; \<open>world\<close> is the rest
  of the runtime state, which only the functions it calls read and write.
\<close>

record 'x lh_state =
  s_frontier :: pointer
  s_limitPlusSlop :: pointer
  s_limit :: pointer
  hh_level :: uint32_t
  hh_lastAllocatedChunk :: pointer
  hh_bytesAllocatedSinceLastCollection :: size_t
  world :: 'x

text \<open>
  An actual argument of a call, and a call of the local collector with the arguments
  the call site passes.
\<close>

datatype c_arg = Arg_uint32 uint32_t | Arg_bool bool

datatype lh_call = Call_HM_HHC_collectLocal "c_arg list"

datatype lh_abort = Die_limitPlusSlop_below_frontier | Die_out_of_space

text \<open>
  The functions and constants of other files, as parameters. \<open>stackGrowBytes\<close> is
  \<open>sizeofStackWithMetaData (s, sizeofStackGrowReserved (s, getStackCurrent (s)))\<close>;
  \<open>lastChunkLevel\<close> is \<open>HM_getChunkListLevel(HM_getLevelHead(hh->lastAllocatedChunk))\<close>;
  \<open>HM_HH_extend\<close> returns \<open>None\<close> for \<open>FALSE\<close>. The collector receives the list of
  the arguments of its call.
\<close>

record 'x lh_env =
  invariantForMutatorStack :: "'x lh_state \<Rightarrow> bool"
  stackGrowBytes :: "'x lh_state \<Rightarrow> size_t"
  HM_HH_updateValues :: "pointer \<Rightarrow> 'x lh_state \<Rightarrow> 'x lh_state"
  HM_HH_desiredCollectionScope :: "'x lh_state \<Rightarrow> uint32_t"
  HM_HHC_collectLocal :: "c_arg list \<Rightarrow> 'x lh_state \<Rightarrow> 'x lh_state"
  HM_getChunkFrontier :: "'x lh_state \<Rightarrow> pointer \<Rightarrow> pointer"
  HM_getChunkLimit :: "'x lh_state \<Rightarrow> pointer \<Rightarrow> pointer"
  setGCStateCurrentThreadAndStack :: "'x lh_state \<Rightarrow> 'x lh_state"
  lastChunkLevel :: "'x lh_state \<Rightarrow> uint32_t"
  HM_HH_extend :: "size_t \<Rightarrow> 'x lh_state \<Rightarrow> 'x lh_state option"
  HM_HH_getFrontier :: "'x lh_state \<Rightarrow> pointer"
  HM_HH_getLimit :: "'x lh_state \<Rightarrow> pointer"
  growStackCurrent :: "'x lh_state \<Rightarrow> 'x lh_state"
  lh_GC_HEAP_LIMIT_SLOP :: size_t
  lh_HM_BLOCK_SIZE :: size_t

text \<open>
  Lines 82 to 119 (from the call of the collector to the republished frontier): the
  call \<open>HM_HHC_collectLocal(desiredScope)\<close> passes one argument.
\<close>

definition collectAndRepublish ::
  "'x lh_env \<Rightarrow> uint32_t \<Rightarrow> 'x lh_state \<Rightarrow> lh_call list \<times> 'x lh_state" where
  "collectAndRepublish E desiredScope s =
     (let s1 = HM_HHC_collectLocal E [Arg_uint32 desiredScope] s;
          s2 = s1\<lparr>hh_bytesAllocatedSinceLastCollection := 0\<rparr>;
          s3 = (if hh_lastAllocatedChunk s2 = 0
                then s2\<lparr>s_frontier := 0, s_limitPlusSlop := 0, s_limit := 0\<rparr>
                else s2\<lparr>s_frontier := HM_getChunkFrontier E s2 (hh_lastAllocatedChunk s2),
                        s_limitPlusSlop := HM_getChunkLimit E s2 (hh_lastAllocatedChunk s2),
                        s_limit := HM_getChunkLimit E s2 (hh_lastAllocatedChunk s2)
                                     - lh_GC_HEAP_LIMIT_SLOP E\<rparr>)
      in ([Call_HM_HHC_collectLocal [Arg_uint32 desiredScope]], s3))"

text \<open>
  The test that decides whether the heap is extended (lines 129 to 132 and 156 to
  159), and the extension with the republished frontier.
\<close>

definition mustExtendHH :: "'x lh_env \<Rightarrow> bool \<Rightarrow> size_t \<Rightarrow> 'x lh_state \<Rightarrow> bool" where
  "mustExtendHH E ensureCurrentLevel bytes s =
     (hh_lastAllocatedChunk s = 0 \<or>
      (ensureCurrentLevel \<and> lastChunkLevel E s \<noteq> hh_level s) \<or>
      hh_lastAllocatedChunk s + lh_HM_BLOCK_SIZE E
        \<le> HM_getChunkFrontier E s (hh_lastAllocatedChunk s) \<or>
      s_limitPlusSlop s - s_frontier s < bytes)"

definition extendHH :: "'x lh_env \<Rightarrow> size_t \<Rightarrow> 'x lh_state \<Rightarrow> lh_abort + 'x lh_state" where
  "extendHH E bytes s =
     (case HM_HH_extend E bytes s of
        None \<Rightarrow> Inl Die_out_of_space
      | Some s1 \<Rightarrow>
          Inr (s1\<lparr>s_frontier := HM_HH_getFrontier E s1,
                  s_limitPlusSlop := HM_HH_getLimit E s1,
                  s_limit := HM_HH_getLimit E s1 - lh_GC_HEAP_LIMIT_SLOP E\<rparr>))"

text \<open>
  \<open>HM_ensureHierarchicalHeapAssurances\<close>. The result holds the calls of the local
  collector the function made, in order, and the state it ends in. The two \<open>assert\<close>s
  that end it and the \<open>assert\<close> after \<open>growStackCurrent\<close> are not part of a production
  build.
\<close>

definition HM_ensureHierarchicalHeapAssurances ::
  "'x lh_env \<Rightarrow> 'x lh_state \<Rightarrow> bool \<Rightarrow> size_t \<Rightarrow> bool
     \<Rightarrow> lh_abort + (lh_call list \<times> 'x lh_state)" where
  "HM_ensureHierarchicalHeapAssurances E s forceGC bytesRequested ensureCurrentLevel =
     (let growStack = \<not> invariantForMutatorStack E s;
          stackBytes = (if growStack then stackGrowBytes E s else 0);
          s1 = HM_HH_updateValues E (s_frontier s) s
      in if s_limitPlusSlop s1 < s_frontier s1 then Inl Die_limitPlusSlop_below_frontier
         else
           (let desiredScope = HM_HH_desiredCollectionScope E s1;
                (calls, s2) =
                  (if forceGC \<or> desiredScope \<le> hh_level s1
                   then (let (cs, s') = collectAndRepublish E desiredScope s1
                         in (cs, setGCStateCurrentThreadAndStack E s'))
                   else ([], s1))
            in case (if growStack
                     then (case (if mustExtendHH E ensureCurrentLevel stackBytes s2
                                 then extendHH E stackBytes s2 else Inr s2) of
                             Inl e \<Rightarrow> Inl e
                           | Inr s3 \<Rightarrow>
                               (let s4 = growStackCurrent E s3;
                                    s5 = HM_HH_updateValues E (s_frontier s4) s4
                                in Inr (setGCStateCurrentThreadAndStack E s5)))
                     else Inr s2) of
                 Inl e \<Rightarrow> Inl e
               | Inr s6 \<Rightarrow>
                   (case (if mustExtendHH E ensureCurrentLevel bytesRequested s6
                          then extendHH E bytesRequested s6 else Inr s6) of
                      Inl e \<Rightarrow> Inl e
                    | Inr s7 \<Rightarrow> Inr (calls, s7))))"

section \<open>Sizes within the address space\<close>


section \<open>Concrete states\<close>

text \<open>
  A heap with one level-2 chunk list in from-space (handle 0) that holds a chunk of
  many objects at \<open>0x10000\<close> and the single-object chunk \<open>0x20000\<close> of the stack at
  \<open>0x20040\<close>; the allocator can still hand out two chunks. The stack is not the
  current one and reserves 1024 bytes for 96 bytes in use.
\<close>

definition ex_params :: gc_params where
  "ex_params = \<lparr>GC_NORMAL_METADATA_SIZE = 8, GC_SEQUENCE_METADATA_SIZE = 24,
     GC_STACK_METADATA_SIZE = 8, OBJPTR_SIZE = 8, sizeof_GC_stack = 16,
     GC_HEAP_LIMIT_SLOP = 512, HM_BLOCK_SIZE = 4096, HM_HH_INVALID_LEVEL = 0xFFFFFFFF,
     COPY_OBJECT_HH_VALUE = 0xFFFFFFFFFFFFFFFF,
     sizeofSequenceNoMetaData = (\<lambda>n b k. n * (ucast b + ucast k * 8)),
     sizeofStackShrinkReserved = (\<lambda>st current. if current then reserved st else 2 * used st),
     isObjptr = (\<lambda>op. op mod 4 = 0),
     isObjptrInRootHeap = (\<lambda>op. op < 0x1000),
     objptrToPointer = (\<lambda>op. op),
     pointerToObjptr = (\<lambda>p. p)\<rparr>"

definition ex_object :: "GC_objectTypeTag \<Rightarrow> gc_object" where
  "ex_object t = \<lparr>fwdPtr = None, tag = t, bytesNonObjptrs = 8, numObjptrs = 1,
     sequenceLength = 0, stack = \<lparr>reserved = 1024, used = 96\<rparr>\<rparr>"

definition ex_heap :: hh_heap where
  "ex_heap = \<lparr>objects = (\<lambda>p. if p = 0x20040 then ex_object STACK_TAG else ex_object NORMAL_TAG),
     chunkOf = (\<lambda>p. if p = 0x20040 then 0x20000 else 0x10000),
     chunks = (\<lambda>c. if c = 0x20000
                    then \<lparr>frontier = 0x20500, limit = 0x21000,
                          mightContainMultipleObjects = False, levelHead = 0\<rparr>
                    else \<lparr>frontier = 0x10100, limit = 0x11000,
                          mightContainMultipleObjects = True, levelHead = 0\<rparr>),
     chunkLists = (\<lambda>l. \<lparr>chunkSeq = (if l = 0 then [0x10000, 0x20000] else []), level = 2,
                          isInToSpace = False, containingHH = 0x500\<rparr>),
     freshList = 1,
     chunkPool = [(0x30000, \<lparr>frontier = 0x30040, limit = 0x31000,
                              mightContainMultipleObjects = True, levelHead = 0\<rparr>),
                  (0x40000, \<lparr>frontier = 0x40040, limit = 0x41000,
                              mightContainMultipleObjects = True, levelHead = 0\<rparr>)],
     stackCurrent = 0x50040\<rparr>"

definition ex_args :: ForwardHHObjptrArgs where
  "ex_args = \<lparr>hh = 0x500, minLevel = 1, maxLevel = 3, toLevel = 0xFFFFFFFF,
     toSpace = (\<lambda>l. None), containingObject = 1, bytesCopied = 0, objectsCopied = 0,
     stacksCopied = 0, bytesMoved = 0, objectsMoved = 0\<rparr>"





text \<open>
  A weak chain of two weaks: the referent \<open>0x900\<close> of the weak at \<open>0x100\<close> was forwarded
  to \<open>0xA00\<close>, the referent \<open>0x800\<close> of the weak at \<open>0x200\<close> was not.
\<close>

definition ex_cheney_params :: cheney_params where
  "ex_cheney_params = \<lparr>GC_FORWARDED = 0xFFFFFFFFFFFFFFFF, GC_WEAK_GONE_HEADER = 3,
     BOGUS_OBJPTR = 1, offsetofWeak = 8, heapObjptrToPointer = (\<lambda>op. op)\<rparr>"

definition ex_cheney_state :: cheney_state where
  "ex_cheney_state = \<lparr>headers = (\<lambda>p. if p = 0x900 then 0xFFFFFFFFFFFFFFFF else 5),
     bodyWord = (\<lambda>p. if p = 0x900 then 0xA00 else 0),
     weak_objptr = (\<lambda>w. if w = 0x100 then 0x900 else 0x800),
     weak_link = (\<lambda>w. if w = 0x100 then 0x200 else 0),
     weaks = 0x100\<rparr>"

text \<open>
  A mutator state whose stack needs no growth, with collaborators that leave the
  state as it is, but for the collector, which ends with \<open>0x30000\<close> as the last
  allocated chunk; the desired collection scope is 1.
\<close>

definition ex_lh_env :: "unit lh_env" where
  "ex_lh_env = \<lparr>invariantForMutatorStack = (\<lambda>s. True),
     stackGrowBytes = (\<lambda>s. 0),
     HM_HH_updateValues = (\<lambda>fr s. s),
     HM_HH_desiredCollectionScope = (\<lambda>s. 1),
     HM_HHC_collectLocal = (\<lambda>args s. s\<lparr>hh_lastAllocatedChunk := 0x30000\<rparr>),
     HM_getChunkFrontier = (\<lambda>s c. c + 0x40),
     HM_getChunkLimit = (\<lambda>s c. c + 0x1000),
     setGCStateCurrentThreadAndStack = (\<lambda>s. s),
     lastChunkLevel = (\<lambda>s. 2),
     HM_HH_extend = (\<lambda>n s. Some s),
     HM_HH_getFrontier = (\<lambda>s. s_frontier s),
     HM_HH_getLimit = (\<lambda>s. s_limitPlusSlop s),
     growStackCurrent = (\<lambda>s. s),
     lh_GC_HEAP_LIMIT_SLOP = 512,
     lh_HM_BLOCK_SIZE = 4096\<rparr>"

definition ex_lh_state :: "unit lh_state" where
  "ex_lh_state = \<lparr>s_frontier = 0x10100, s_limitPlusSlop = 0x11000, s_limit = 0x10E00,
     hh_level = 2, hh_lastAllocatedChunk = 0x10000,
     hh_bytesAllocatedSinceLastCollection = 4096, world = ()\<rparr>"

section \<open>Properties of the deque\<close>

lemma getSequenceLength_CAP: "length xs = CAP \<Longrightarrow> getSequenceLength xs = 64"
  by (simp add: getSequenceLength_def CAP_def)

lemma word_pred_not_ge: "(k :: uint64_t) \<noteq> 0 \<Longrightarrow> \<not> k \<le> k - 1"
proof -
  assume "k \<noteq> 0"
  then have "unat (k - 1) < unat k" by (rule measure_unat)
  then show ?thesis by (simp add: word_le_nat_alt)
qed

text \<open>
  On an empty deque whose two indices are equal and not zero, \<open>ChaseLev_tryPopBot\<close>
  returns the fail value and leaves the deque as it was.
\<close>

lemma tryPopBot_empty_nonzero:
  assumes "top_ix d = k" and "bot_ix d = k" and "k \<noteq> 0"
  shows "ChaseLev_tryPopBot d fail_value = Inr (fail_value, d)"
  using assms word_pred_not_ge [of k]
  by (simp add: ChaseLev_tryPopBot_def Let_def)

text \<open>
  Claim C1: on a deque with \<open>top = bot = k\<close>, for any \<open>k\<close> and also for a new deque
  with \<open>top = bot = 0\<close>, \<open>try_pop_bottom(fail)\<close> returns the fail value and leaves
  \<open>top\<close> and \<open>bot\<close> at \<open>k\<close>. At \<open>k = 0\<close> the code does something else: \<open>bot - 1\<close>
  wraps around to \<open>2^64 - 1\<close>, the unsigned test \<open>local_top <= local_bot\<close> succeeds,
  and the call returns the content of slot 63 and leaves \<open>bot\<close> at \<open>2^64 - 1\<close>.
\<close>

theorem tryPopBot_new_deque_underflow:
  "ChaseLev_tryPopBot \<lparr>top_ix = 0, bot_ix = 0, data_seq = replicate 64 7\<rparr> 0
     = Inr (7, \<lparr>top_ix = 0, bot_ix = 0xFFFFFFFFFFFFFFFF, data_seq = replicate 64 7\<rparr>)"
  by (simp add: ChaseLev_tryPopBot_def Let_def seq_load_def CAP_def)

text \<open>
  Claim C2: on a deque whose data sequence has \<open>CAP = 64\<close> slots, \<open>push_bottom(v)\<close>
  returns false and leaves \<open>top\<close>, \<open>bot\<close> and \<open>data\<close> unchanged when
  \<open>bot - top \<ge> CAP\<close>; otherwise it writes \<open>v\<close> into \<open>data[bot mod CAP]\<close>, increments
  \<open>bot\<close> by one and returns true. The subtraction is the code's: on \<open>uint64_t\<close>.
\<close>

theorem pushBot_full_or_push:
  assumes "length (data_seq d) = CAP"
  shows "ChaseLev_pushBot d v =
     (if of_nat CAP \<le> bot_ix d - top_ix d then Inr (False, d)
      else Inr (True, d\<lparr>data_seq := (data_seq d)[unat (bot_ix d) mod CAP := v],
                          bot_ix := bot_ix d + 1\<rparr>))"
  using assms
  by (simp add: ChaseLev_pushBot_def getSequenceLength_CAP seq_store_def Let_def CAP_def)

theorem pushBot_full_or_push_witness:
  "length (data_seq \<lparr>top_ix = 3, bot_ix = 5, data_seq = replicate 64 0\<rparr>) = CAP \<and>
   ChaseLev_pushBot \<lparr>top_ix = 3, bot_ix = 5, data_seq = replicate 64 0\<rparr> 9
     = Inr (True, \<lparr>top_ix = 3, bot_ix = 6, data_seq = (replicate 64 0)[5 := 9]\<rparr>) \<and>
   length (data_seq \<lparr>top_ix = 3, bot_ix = 67, data_seq = replicate 64 0\<rparr>) = CAP \<and>
   ChaseLev_pushBot \<lparr>top_ix = 3, bot_ix = 67, data_seq = replicate 64 0\<rparr> 9
     = Inr (False, \<lparr>top_ix = 3, bot_ix = 67, data_seq = replicate 64 0\<rparr>)"
  using pushBot_full_or_push [of "\<lparr>top_ix = 3, bot_ix = 5, data_seq = replicate 64 0\<rparr>" 9]
    pushBot_full_or_push [of "\<lparr>top_ix = 3, bot_ix = 67, data_seq = replicate 64 0\<rparr>" 9]
  by (simp add: CAP_def)

text \<open>
  Claim C3: from a state with \<open>top = bot = k\<close> and for every desired depth \<open>d\<close>,
  \<open>set_depth(d)\<close> does not abort, and every memory state the call goes through (the
  state it starts in, the state between its two stores, the state it ends in)
  satisfies \<open>bot \<le> top\<close>: a thief that samples the pair \<open>(top, bot)\<close> at any of them
  sees an empty deque. The call ends with \<open>top = bot = d\<close>.
\<close>

theorem setDepth_states_empty:
  assumes "top_ix d = bot_ix d"
  shows "\<exists>sts. ChaseLev_setDepth_stores d desired_depth = Inr sts \<and>
           (\<forall>s \<in> set (states_of sts d). bot_ix s \<le> top_ix s) \<and>
           ChaseLev_setDepth d desired_depth = Inr (last (states_of sts d)) \<and>
           top_ix (last (states_of sts d)) = desired_depth \<and>
           bot_ix (last (states_of sts d)) = desired_depth"
  using assms
  by (auto simp: ChaseLev_setDepth_stores_def ChaseLev_setDepth_def Let_def)

theorem setDepth_states_empty_witness:
  "top_ix \<lparr>top_ix = 4, bot_ix = 4, data_seq = []\<rparr> = bot_ix \<lparr>top_ix = 4, bot_ix = 4, data_seq = []\<rparr> \<and>
   ChaseLev_setDepth_stores \<lparr>top_ix = 4, bot_ix = 4, data_seq = []\<rparr> 2 = Inr [Store_bot 2, Store_top 2] \<and>
   states_of [Store_bot 2, Store_top 2] \<lparr>top_ix = 4, bot_ix = 4, data_seq = []\<rparr>
     = [\<lparr>top_ix = 4, bot_ix = 4, data_seq = []\<rparr>, \<lparr>top_ix = 4, bot_ix = 2, data_seq = []\<rparr>,
        \<lparr>top_ix = 2, bot_ix = 2, data_seq = []\<rparr>] \<and>
   ChaseLev_setDepth \<lparr>top_ix = 4, bot_ix = 4, data_seq = []\<rparr> 2
     = Inr \<lparr>top_ix = 2, bot_ix = 2, data_seq = []\<rparr>"
  using setDepth_states_empty [of "\<lparr>top_ix = 4, bot_ix = 4, data_seq = []\<rparr>" 2]
  by (auto simp: ChaseLev_setDepth_stores_def)

text \<open>
  Claim C9: on a deque that satisfies the deque invariant \<open>top \<le> bot\<close>, has \<open>CAP\<close>
  slots and is not full (\<open>bot - top < CAP\<close>), \<open>push_bottom(v)\<close> succeeds and
  \<open>try_pop_bottom(fail)\<close>, run on the state the push leaves with no step of a thief in
  between, returns \<open>v\<close>.
\<close>

theorem pushBot_then_tryPopBot:
  assumes "length (data_seq d) = CAP"
    and "top_ix d \<le> bot_ix d"
    and "bot_ix d - top_ix d < of_nat CAP"
  shows "\<exists>d1 d2. ChaseLev_pushBot d v = Inr (True, d1) \<and>
                 ChaseLev_tryPopBot d1 fail_value = Inr (v, d2)"
  using assms
  by (auto simp: ChaseLev_pushBot_def ChaseLev_tryPopBot_def getSequenceLength_CAP
      seq_store_def seq_load_def compare_exchange_top_def Let_def CAP_def)

theorem pushBot_then_tryPopBot_witness:
  "length (data_seq \<lparr>top_ix = 3, bot_ix = 5, data_seq = replicate 64 0\<rparr>) = CAP \<and>
   top_ix \<lparr>top_ix = 3, bot_ix = 5, data_seq = replicate 64 0\<rparr>
     \<le> bot_ix \<lparr>top_ix = 3, bot_ix = 5, data_seq = replicate 64 0\<rparr> \<and>
   bot_ix \<lparr>top_ix = 3, bot_ix = 5, data_seq = replicate 64 0\<rparr>
     - top_ix \<lparr>top_ix = 3, bot_ix = 5, data_seq = replicate 64 0\<rparr> < of_nat CAP \<and>
   (\<exists>d1 d2. ChaseLev_pushBot \<lparr>top_ix = 3, bot_ix = 5, data_seq = replicate 64 0\<rparr> 9 = Inr (True, d1) \<and>
            ChaseLev_tryPopBot d1 1 = Inr (9, d2))"
  using pushBot_then_tryPopBot [of "\<lparr>top_ix = 3, bot_ix = 5, data_seq = replicate 64 0\<rparr>" 9 1]
  by (simp add: CAP_def)

section \<open>Properties of the forwarding engine\<close>

subsection \<open>Sizes\<close>

text \<open>
  Claim C6: for a stack object, \<open>compute_object_copy_parameters\<close> leaves
  \<open>stack.reserved\<close> at most what it was (it is set to what \<open>shrink_reserved\<close> returns
  only when that is smaller), leaves \<open>stack.used\<close> unchanged, and returns
  \<open>object_size = meta_size + sizeof(stack header) + reserved\<close> and
  \<open>copy_size = meta_size + sizeof(stack header) + used\<close>, with the reserved size the
  call leaves.
\<close>

theorem computeObjectCopyParameters_stack:
  assumes "tag (objects h p) = STACK_TAG"
  shows "\<exists>objectSize copySize metaDataSize h'.
     computeObjectCopyParameters P h p = Inr (STACK_TAG, objectSize, copySize, metaDataSize, h') \<and>
     reserved (stack (objects h' p)) \<le> reserved (stack (objects h p)) \<and>
     reserved (stack (objects h' p)) =
       (if sizeofStackShrinkReserved P (stack (objects h p)) (stackCurrent h = p)
             < reserved (stack (objects h p))
        then sizeofStackShrinkReserved P (stack (objects h p)) (stackCurrent h = p)
        else reserved (stack (objects h p))) \<and>
     used (stack (objects h' p)) = used (stack (objects h p)) \<and>
     metaDataSize = GC_STACK_METADATA_SIZE P \<and>
     objectSize = metaDataSize + sizeof_GC_stack P + reserved (stack (objects h' p)) \<and>
     copySize = metaDataSize + sizeof_GC_stack P + used (stack (objects h' p))"
  using assms
  by (auto simp: computeObjectCopyParameters_def Let_def)

theorem computeObjectCopyParameters_stack_witness:
  "tag (objects ex_heap 0x20040) = STACK_TAG \<and>
   reserved (stack (objects ex_heap 0x20040)) = 1024 \<and>
   used (stack (objects ex_heap 0x20040)) = 96 \<and>
   (\<exists>h'. computeObjectCopyParameters ex_params ex_heap 0x20040
            = Inr (STACK_TAG, 216, 120, 8, h') \<and>
         reserved (stack (objects h' 0x20040)) = 192 \<and>
         used (stack (objects h' 0x20040)) = 96)"
proof -
  have t: "tag (objects ex_heap 0x20040) = STACK_TAG"
    by (simp add: ex_heap_def ex_object_def)
  from computeObjectCopyParameters_stack [OF t, of ex_params]
  show ?thesis
    by (auto simp: ex_heap_def ex_object_def ex_params_def)
qed





subsection \<open>Fatal exits\<close>

lemma computeObjectCopyParameters_abort:
  "computeObjectCopyParameters P h p = Inl e \<Longrightarrow> e = Weak_unsupported"
  by (auto simp: computeObjectCopyParameters_def Let_def split: if_splits)

lemma copyObject_abort:
  "copyObject P h p objectSize copySize tgt = Inl e \<Longrightarrow> e = Out_of_space \<or> e = Null_chunk"
  by (auto simp: copyObject_def Let_def split: list.splits option.splits if_splits prod.splits)

lemma selectTgtChunkList_abort:
  "selectTgtChunkList P h args lvl n = Inl e \<Longrightarrow> e = Out_of_space"
  by (auto simp: selectTgtChunkList_def Let_def split: option.splits prod.splits)

lemma forwardHHObjptr_forward_abort:
  "forwardHHObjptr_forward P h args v p lvl = Inl e \<Longrightarrow> e \<noteq> Entanglement"
  by (auto simp: forwardHHObjptr_forward_def Let_def
      split: sum.splits prod.splits option.splits if_splits GC_objectTypeTag.splits
      dest: computeObjectCopyParameters_abort copyObject_abort selectTgtChunkList_abort)

text \<open>
  Claim C5: when the slot holds a pointer to an object of the hierarchical heap (an
  object pointer that is not in the root heap), \<open>forward_hh_objptr\<close> ends with the
  fatal entanglement error if the level of the referent is above \<open>args.max_level\<close>,
  and does not end with it if the level is at most \<open>args.max_level\<close>.
\<close>

theorem forwardHHObjptr_entanglement:
  assumes "isObjptr P op" and "\<not> isObjptrInRootHeap P op"
  shows "(maxLevel args < HM_getObjptrLevel P h op
            \<longrightarrow> forwardHHObjptr P h args op = Some (Inl Entanglement)) \<and>
         (HM_getObjptrLevel P h op \<le> maxLevel args
            \<longrightarrow> forwardHHObjptr P h args op \<noteq> Some (Inl Entanglement))"
  using assms
  by (auto simp: forwardHHObjptr_def Let_def split: option.splits
      dest: forwardHHObjptr_forward_abort)

theorem forwardHHObjptr_entanglement_witness:
  "isObjptr ex_params 0x20040 \<and> \<not> isObjptrInRootHeap ex_params 0x20040 \<and>
   HM_getObjptrLevel ex_params ex_heap 0x20040 = 2 \<and>
   maxLevel (ex_args\<lparr>maxLevel := 1\<rparr>) = 1 \<and>
   forwardHHObjptr ex_params ex_heap (ex_args\<lparr>maxLevel := 1\<rparr>) 0x20040
     = Some (Inl Entanglement) \<and>
   maxLevel ex_args = 3 \<and>
   forwardHHObjptr ex_params ex_heap ex_args 0x20040 \<noteq> Some (Inl Entanglement)"
proof -
  have p: "isObjptr ex_params 0x20040" and r: "\<not> isObjptrInRootHeap ex_params 0x20040"
    by (simp_all add: ex_params_def)
  have l: "HM_getObjptrLevel ex_params ex_heap 0x20040 = 2"
    by (simp add: HM_getObjptrLevel_def ex_params_def ex_heap_def)
  from forwardHHObjptr_entanglement [OF p r, of "ex_args\<lparr>maxLevel := 1\<rparr>" ex_heap]
    forwardHHObjptr_entanglement [OF p r, of ex_args ex_heap]
  show ?thesis
    using p r l by (simp add: ex_args_def)
qed

subsection \<open>The single-object chunk\<close>


















section \<open>Properties of the weak fixup\<close>

lemma weak_chain_unique:
  "weak_chain lnk w xs \<Longrightarrow> weak_chain lnk w ys \<Longrightarrow> xs = ys"
proof (induction xs arbitrary: w ys)
  case Nil
  then show ?case by (cases ys) auto
next
  case (Cons x xs)
  then show ?case by (cases ys) auto
qed

lemma weak_chain_suffix:
  "weak_chain lnk w (as @ x # bs) \<Longrightarrow> weak_chain lnk x (x # bs)"
  by (induction as arbitrary: w) auto

lemma weak_chain_distinct: "weak_chain lnk w ws \<Longrightarrow> distinct ws"
proof (induction ws arbitrary: w)
  case Nil
  then show ?case by simp
next
  case (Cons x xs)
  then have tail: "weak_chain lnk (lnk x) xs" by simp
  have "x \<notin> set xs"
  proof
    assume "x \<in> set xs"
    then obtain as bs where split: "xs = as @ x # bs" by (auto simp: in_set_conv_decomp)
    with tail have "weak_chain lnk x (x # bs)" by (auto dest: weak_chain_suffix)
    then have "weak_chain lnk (lnk x) bs" by simp
    with tail have "xs = bs" by (rule weak_chain_unique)
    with split show False by simp
  qed
  with Cons.IH [OF tail] show ?case by simp
qed

lemma updateWeak_frame:
  "weak_link (updateWeak C w s) = weak_link s"
  "bodyWord (updateWeak C w s) = bodyWord s"
  "weaks (updateWeak C w s) = weaks s"
  "x \<noteq> w \<Longrightarrow> weak_objptr (updateWeak C w s) x = weak_objptr s x"
  "headers (updateWeak C w s) q = headers s q \<or>
     (q = w - offsetofWeak C \<and> headers (updateWeak C w s) q = GC_WEAK_GONE_HEADER C)"
  by (auto simp: updateWeak_def Let_def)

lemma updateWeak_result:
  "weak_objptr (updateWeak C w s) w =
     (if GC_FORWARDED C = headers s (heapObjptrToPointer C (weak_objptr s w))
      then bodyWord s (heapObjptrToPointer C (weak_objptr s w)) else BOGUS_OBJPTR C)"
  "GC_FORWARDED C \<noteq> headers s (heapObjptrToPointer C (weak_objptr s w)) \<Longrightarrow>
     headers (updateWeak C w s) (w - offsetofWeak C) = GC_WEAK_GONE_HEADER C"
  by (auto simp: updateWeak_def Let_def)

lemma updateWeaks_loop_chain:
  assumes "weak_chain (weak_link s) w ws"
    and "distinct ws"
    and "GC_WEAK_GONE_HEADER C \<noteq> GC_FORWARDED C"
    and "\<forall>q. (headers s q = GC_FORWARDED C) = (H0 q = GC_FORWARDED C)"
    and "\<forall>x \<in> set ws. H0 (x - offsetofWeak C) \<noteq> GC_FORWARDED C"
  shows "\<exists>s'. updateWeaks_loop C w s = Some s' \<and>
           weaks s' = weaks s \<and>
           (\<forall>q. headers s' q = headers s q \<or> headers s' q = GC_WEAK_GONE_HEADER C) \<and>
           (\<forall>x. x \<notin> set ws \<longrightarrow> weak_objptr s' x = weak_objptr s x) \<and>
           (\<forall>x \<in> set ws.
              if H0 (heapObjptrToPointer C (weak_objptr s x)) = GC_FORWARDED C
              then weak_objptr s' x = bodyWord s (heapObjptrToPointer C (weak_objptr s x))
              else headers s' (x - offsetofWeak C) = GC_WEAK_GONE_HEADER C \<and>
                   weak_objptr s' x = BOGUS_OBJPTR C)"
  using assms
proof (induction ws arbitrary: w s)
  case Nil
  then show ?case by (subst updateWeaks_loop.simps) simp
next
  case (Cons x xs)
  let ?s1 = "updateWeak C x s"
  let ?p = "heapObjptrToPointer C (weak_objptr s x)"
  from Cons.prems have w: "w = x" "x \<noteq> 0" and tail: "weak_chain (weak_link s) (weak_link s x) xs"
    and notin: "x \<notin> set xs" and dist: "distinct xs"
    by auto
  have fwd_iff: "(headers s ?p = GC_FORWARDED C) = (H0 ?p = GC_FORWARDED C)"
    using Cons.prems(4) by blast
  have live_x: "H0 (x - offsetofWeak C) \<noteq> GC_FORWARDED C"
    using Cons.prems(5) by simp
  have inv1: "\<forall>q. (headers ?s1 q = GC_FORWARDED C) = (H0 q = GC_FORWARDED C)"
  proof
    fix q
    have base: "(headers s q = GC_FORWARDED C) = (H0 q = GC_FORWARDED C)"
      using Cons.prems(4) by blast
    from updateWeak_frame(5) [of C x s q]
    show "(headers ?s1 q = GC_FORWARDED C) = (H0 q = GC_FORWARDED C)"
    proof
      assume "headers ?s1 q = headers s q"
      with base show ?thesis by simp
    next
      assume gone: "q = x - offsetofWeak C \<and> headers ?s1 q = GC_WEAK_GONE_HEADER C"
      then have g1: "q = x - offsetofWeak C" and g2: "headers ?s1 q = GC_WEAK_GONE_HEADER C"
        by blast+
      have "headers ?s1 q \<noteq> GC_FORWARDED C" unfolding g2 by (rule Cons.prems(3))
      moreover have "H0 q \<noteq> GC_FORWARDED C" unfolding g1 by (rule live_x)
      ultimately show ?thesis by simp
    qed
  qed
  have tail1: "weak_chain (weak_link ?s1) (weak_link ?s1 x) xs"
    using tail by (simp add: updateWeak_frame)
  have live1: "\<forall>y \<in> set xs. H0 (y - offsetofWeak C) \<noteq> GC_FORWARDED C"
    using Cons.prems(5) by simp
  from Cons.IH [OF tail1 dist Cons.prems(3) inv1 live1]
  obtain s' where run: "updateWeaks_loop C (weak_link ?s1 x) ?s1 = Some s'"
    and wk: "weaks s' = weaks ?s1"
    and hdr: "\<forall>q. headers s' q = headers ?s1 q \<or> headers s' q = GC_WEAK_GONE_HEADER C"
    and other: "\<forall>y. y \<notin> set xs \<longrightarrow> weak_objptr s' y = weak_objptr ?s1 y"
    and each: "\<forall>y \<in> set xs.
              if H0 (heapObjptrToPointer C (weak_objptr ?s1 y)) = GC_FORWARDED C
              then weak_objptr s' y = bodyWord ?s1 (heapObjptrToPointer C (weak_objptr ?s1 y))
              else headers s' (y - offsetofWeak C) = GC_WEAK_GONE_HEADER C \<and>
                   weak_objptr s' y = BOGUS_OBJPTR C"
    by blast
  have loop: "updateWeaks_loop C w s = Some s'"
    using run w by (subst updateWeaks_loop.simps) simp
  have c_weaks: "weaks s' = weaks s" using wk by (simp add: updateWeak_frame)
  have c_hdr: "\<forall>q. headers s' q = headers s q \<or> headers s' q = GC_WEAK_GONE_HEADER C"
  proof
    fix q
    from hdr have "headers s' q = headers ?s1 q \<or> headers s' q = GC_WEAK_GONE_HEADER C" by blast
    with updateWeak_frame(5) [of C x s q]
    show "headers s' q = headers s q \<or> headers s' q = GC_WEAK_GONE_HEADER C" by auto
  qed
  have c_other: "\<forall>y. y \<notin> set (x # xs) \<longrightarrow> weak_objptr s' y = weak_objptr s y"
    using other by (simp add: updateWeak_frame)
  have x_objptr: "weak_objptr s' x = weak_objptr ?s1 x" using other notin by blast
  have c_x: "if H0 ?p = GC_FORWARDED C
             then weak_objptr s' x = bodyWord s ?p
             else headers s' (x - offsetofWeak C) = GC_WEAK_GONE_HEADER C \<and>
                  weak_objptr s' x = BOGUS_OBJPTR C"
  proof (cases "H0 ?p = GC_FORWARDED C")
    case True
    with fwd_iff have "GC_FORWARDED C = headers s ?p" by simp
    then show ?thesis using True x_objptr by (simp add: updateWeak_result)
  next
    case False
    with fwd_iff have nf: "GC_FORWARDED C \<noteq> headers s ?p" by auto
    then have "headers ?s1 (x - offsetofWeak C) = GC_WEAK_GONE_HEADER C"
      by (rule updateWeak_result(2))
    moreover have "headers s' (x - offsetofWeak C) = headers ?s1 (x - offsetofWeak C) \<or>
        headers s' (x - offsetofWeak C) = GC_WEAK_GONE_HEADER C"
      using hdr by blast
    ultimately have "headers s' (x - offsetofWeak C) = GC_WEAK_GONE_HEADER C" by auto
    then show ?thesis using False nf x_objptr by (simp add: updateWeak_result)
  qed
  have c_each: "\<forall>y \<in> set xs.
              if H0 (heapObjptrToPointer C (weak_objptr s y)) = GC_FORWARDED C
              then weak_objptr s' y = bodyWord s (heapObjptrToPointer C (weak_objptr s y))
              else headers s' (y - offsetofWeak C) = GC_WEAK_GONE_HEADER C \<and>
                   weak_objptr s' y = BOGUS_OBJPTR C"
  proof
    fix y assume y: "y \<in> set xs"
    with notin have "y \<noteq> x" by auto
    then have "weak_objptr ?s1 y = weak_objptr s y" by (rule updateWeak_frame(4))
    with each y show "if H0 (heapObjptrToPointer C (weak_objptr s y)) = GC_FORWARDED C
              then weak_objptr s' y = bodyWord s (heapObjptrToPointer C (weak_objptr s y))
              else headers s' (y - offsetofWeak C) = GC_WEAK_GONE_HEADER C \<and>
                   weak_objptr s' y = BOGUS_OBJPTR C"
      by (auto simp: updateWeak_frame(2))
  qed
  show ?case
    using loop c_weaks c_hdr c_other c_x c_each by (intro exI [of _ s']) simp
qed

text \<open>
  Claim C7: let \<open>ws\<close> be the weak chain at the start of the weak fixup, each of its
  weak objects carrying a header that is not \<open>GC_FORWARDED\<close> (the two sentinel
  headers being different values). Then \<open>update_weaks\<close> returns, and for every weak
  \<open>w\<close> of the chain: if the header of the referent of \<open>w\<close> is \<open>GC_FORWARDED\<close>, then
  \<open>w.objptr\<close> ends as the forwarding pointer read from the referent; otherwise the
  header of the weak object ends as \<open>GC_WEAK_GONE_HEADER\<close> and \<open>w.objptr\<close> as
  \<open>BOGUS_OBJPTR\<close>. After the pass \<open>s.weaks\<close> is \<open>NULL\<close>.
\<close>

theorem updateWeaksForCheneyCopy_fixup:
  assumes chain: "weak_chain (weak_link s) (weaks s) ws"
    and live: "\<forall>w \<in> set ws. headers s (w - offsetofWeak C) \<noteq> GC_FORWARDED C"
    and sentinels: "GC_WEAK_GONE_HEADER C \<noteq> GC_FORWARDED C"
  shows "\<exists>s'. updateWeaksForCheneyCopy C s = Some s' \<and>
           weaks s' = 0 \<and>
           (\<forall>w \<in> set ws.
              if headers s (heapObjptrToPointer C (weak_objptr s w)) = GC_FORWARDED C
              then weak_objptr s' w = bodyWord s (heapObjptrToPointer C (weak_objptr s w))
              else headers s' (w - offsetofWeak C) = GC_WEAK_GONE_HEADER C \<and>
                   weak_objptr s' w = BOGUS_OBJPTR C)"
proof -
  have dist: "distinct ws" using chain by (rule weak_chain_distinct)
  have same: "\<forall>q. (headers s q = GC_FORWARDED C) = (headers s q = GC_FORWARDED C)" by simp
  from updateWeaks_loop_chain [OF chain dist sentinels same live]
  obtain s1 where run: "updateWeaks_loop C (weaks s) s = Some s1"
    and each: "\<forall>x \<in> set ws.
              if headers s (heapObjptrToPointer C (weak_objptr s x)) = GC_FORWARDED C
              then weak_objptr s1 x = bodyWord s (heapObjptrToPointer C (weak_objptr s x))
              else headers s1 (x - offsetofWeak C) = GC_WEAK_GONE_HEADER C \<and>
                   weak_objptr s1 x = BOGUS_OBJPTR C"
    by blast
  have "updateWeaksForCheneyCopy C s = Some (s1\<lparr>weaks := 0\<rparr>)"
    using run by (simp add: updateWeaksForCheneyCopy_def)
  moreover have "weaks (s1\<lparr>weaks := 0\<rparr>) = 0" by simp
  moreover have "\<forall>w \<in> set ws.
              if headers s (heapObjptrToPointer C (weak_objptr s w)) = GC_FORWARDED C
              then weak_objptr (s1\<lparr>weaks := 0\<rparr>) w
                     = bodyWord s (heapObjptrToPointer C (weak_objptr s w))
              else headers (s1\<lparr>weaks := 0\<rparr>) (w - offsetofWeak C) = GC_WEAK_GONE_HEADER C \<and>
                   weak_objptr (s1\<lparr>weaks := 0\<rparr>) w = BOGUS_OBJPTR C"
    using each by simp
  ultimately show ?thesis by blast
qed

theorem updateWeaksForCheneyCopy_fixup_witness:
  "weak_chain (weak_link ex_cheney_state) (weaks ex_cheney_state) [0x100, 0x200] \<and>
   headers ex_cheney_state 0x900 = GC_FORWARDED ex_cheney_params \<and>
   headers ex_cheney_state 0x800 \<noteq> GC_FORWARDED ex_cheney_params \<and>
   (\<exists>s'. updateWeaksForCheneyCopy ex_cheney_params ex_cheney_state = Some s' \<and>
         weaks s' = 0 \<and>
         weak_objptr s' 0x100 = 0xA00 \<and>
         headers s' 0x1F8 = GC_WEAK_GONE_HEADER ex_cheney_params \<and>
         weak_objptr s' 0x200 = BOGUS_OBJPTR ex_cheney_params)"
proof -
  have chain: "weak_chain (weak_link ex_cheney_state) (weaks ex_cheney_state) [0x100, 0x200]"
    by (simp add: ex_cheney_state_def)
  have live: "\<forall>w \<in> set [0x100, 0x200].
      headers ex_cheney_state (w - offsetofWeak ex_cheney_params) \<noteq> GC_FORWARDED ex_cheney_params"
    by (simp add: ex_cheney_state_def ex_cheney_params_def)
  have sentinels: "GC_WEAK_GONE_HEADER ex_cheney_params \<noteq> GC_FORWARDED ex_cheney_params"
    by (simp add: ex_cheney_params_def)
  from updateWeaksForCheneyCopy_fixup [OF chain live sentinels]
  obtain s' where "updateWeaksForCheneyCopy ex_cheney_params ex_cheney_state = Some s'"
    and "weaks s' = 0"
    and "weak_objptr s' 0x100 = 0xA00"
    and "headers s' 0x1F8 = GC_WEAK_GONE_HEADER ex_cheney_params"
    and "weak_objptr s' 0x200 = BOGUS_OBJPTR ex_cheney_params"
    by (auto simp: ex_cheney_state_def ex_cheney_params_def)
  then show ?thesis
    using chain by (auto simp: ex_cheney_state_def ex_cheney_params_def)
qed

section \<open>Properties of the mutator's entry to the collector\<close>

text \<open>
  When \<open>HM_ensureHierarchicalHeapAssurances\<close> returns, it has called the local
  collector once if \<open>forceGC\<close> holds or the desired scope is at most \<open>hh->level\<close>, and
  not at all otherwise; the call passes the desired scope and nothing else.
\<close>

lemma ensureAssurances_calls:
  assumes "HM_ensureHierarchicalHeapAssurances E s forceGC bytesRequested ensureCurrentLevel
             = Inr (calls, s')"
  shows "calls =
     (if forceGC \<or> HM_HH_desiredCollectionScope E (HM_HH_updateValues E (s_frontier s) s)
                     \<le> hh_level (HM_HH_updateValues E (s_frontier s) s)
      then [Call_HM_HHC_collectLocal
              [Arg_uint32 (HM_HH_desiredCollectionScope E (HM_HH_updateValues E (s_frontier s) s))]]
      else [])"
  using assms
  by (auto simp: HM_ensureHierarchicalHeapAssurances_def collectAndRepublish_def Let_def
      split: if_splits sum.splits prod.splits)

text \<open>
  After the call of the collector, \<open>bytesAllocatedSinceLastCollection\<close> is 0 and the
  frontier and the limits are those of \<open>hh->lastAllocatedChunk\<close>, or \<open>NULL\<close> when there
  is no such chunk.
\<close>

lemma collectAndRepublish_state:
  fixes E :: "'x lh_env"
  defines "s2 \<equiv> \<lambda>d s. (HM_HHC_collectLocal E [Arg_uint32 d] s)
                        \<lparr>hh_bytesAllocatedSinceLastCollection := 0\<rparr>"
  shows "hh_bytesAllocatedSinceLastCollection (snd (collectAndRepublish E d s)) = 0"
    and "hh_lastAllocatedChunk (snd (collectAndRepublish E d s)) = hh_lastAllocatedChunk (s2 d s)"
    and "hh_lastAllocatedChunk (s2 d s) = 0 \<Longrightarrow>
           s_frontier (snd (collectAndRepublish E d s)) = 0 \<and>
           s_limitPlusSlop (snd (collectAndRepublish E d s)) = 0 \<and>
           s_limit (snd (collectAndRepublish E d s)) = 0"
    and "hh_lastAllocatedChunk (s2 d s) \<noteq> 0 \<Longrightarrow>
           s_frontier (snd (collectAndRepublish E d s))
             = HM_getChunkFrontier E (s2 d s) (hh_lastAllocatedChunk (s2 d s)) \<and>
           s_limitPlusSlop (snd (collectAndRepublish E d s))
             = HM_getChunkLimit E (s2 d s) (hh_lastAllocatedChunk (s2 d s)) \<and>
           s_limit (snd (collectAndRepublish E d s))
             = HM_getChunkLimit E (s2 d s) (hh_lastAllocatedChunk (s2 d s))
                 - lh_GC_HEAP_LIMIT_SLOP E"
  by (simp_all add: collectAndRepublish_def s2_def Let_def)

text \<open>
  Claim C8: \<open>ensure_assurances\<close> invokes the local collector exactly when \<open>force_gc\<close>
  holds or \<open>desired_scope \<le> hh.level\<close>, calls it with the two arguments
  \<open>desired_scope\<close> and \<open>force_gc\<close>, then resets
  \<open>bytes_allocated_since_last_collection\<close> and republishes the frontier and the limits.
  The call of the code passes one argument, the desired scope: with \<open>forceGC\<close> true
  and a desired scope of 1, the call is \<open>HM_HHC_collectLocal(1)\<close>, while the collector
  is defined with the parameters \<open>(uint32_t desiredScope, bool force)\<close>.
\<close>

theorem ensureAssurances_call_drops_force:
  "HM_ensureHierarchicalHeapAssurances ex_lh_env ex_lh_state True 16 False
     = Inr ([Call_HM_HHC_collectLocal [Arg_uint32 1]],
            \<lparr>s_frontier = 0x30040, s_limitPlusSlop = 0x31000, s_limit = 0x30E00,
             hh_level = 2, hh_lastAllocatedChunk = 0x30000,
             hh_bytesAllocatedSinceLastCollection = 0, world = ()\<rparr>) \<and>
   [Call_HM_HHC_collectLocal [Arg_uint32 1]]
     \<noteq> [Call_HM_HHC_collectLocal [Arg_uint32 1, Arg_bool True]]"
  by (simp add: HM_ensureHierarchicalHeapAssurances_def collectAndRepublish_def
      mustExtendHH_def extendHH_def ex_lh_env_def ex_lh_state_def Let_def)

end
